theory Spec2Isabelle
  imports Main "HOL-Library.AList"
begin

section \<open>JavaScript values, objects and maps\<close>

text \<open>
  Values that travel through the schema translator, the generated document and the
  YAML emitter. An object (and a \<open>Map\<close>) is an association list in enumeration order:
  writing a key that exists replaces the value in place, writing a new key appends it.
  Numbers are integers (the counters of the program and the literals of a schema); the
  decimal rendering below is the one JavaScript gives for integers below \<open>10^21\<close>.
\<close>

datatype json =
    JUndefined
  | JNull
  | JBool bool
  | JNum int
  | JStr string
  | JArr "json list"
  | JObj "(string \<times> json) list"

type_synonym SchemaObject = "(string \<times> json) list"

text \<open>\<open>obj[k] = v\<close> on an object, \<open>m.set(k, v)\<close> on a \<open>Map\<close>.\<close>

fun obj_set :: "'k \<Rightarrow> 'v \<Rightarrow> ('k \<times> 'v) list \<Rightarrow> ('k \<times> 'v) list" where
  "obj_set k v [] = [(k, v)]"
| "obj_set k v ((k', v') # rest) =
     (if k' = k then (k, v) # rest else (k', v') # obj_set k v rest)"

text \<open>The spread \<open>{...base, ...extra}\<close>: every entry of \<open>extra\<close> is written into \<open>base\<close>.\<close>

definition obj_spread :: "('k \<times> 'v) list \<Rightarrow> ('k \<times> 'v) list \<Rightarrow> ('k \<times> 'v) list" where
  "obj_spread base extra = fold (\<lambda>(k, v) acc. obj_set k v acc) extra base"

text \<open>Truthiness, as \<open>if (x)\<close> and \<open>x || y\<close> test it.\<close>

fun js_truthy :: "json \<Rightarrow> bool" where
  "js_truthy JUndefined = False"
| "js_truthy JNull = False"
| "js_truthy (JBool b) = b"
| "js_truthy (JNum n) = (n \<noteq> 0)"
| "js_truthy (JStr s) = (s \<noteq> [])"
| "js_truthy (JArr xs) = True"
| "js_truthy (JObj kvs) = True"

fun js_typeof :: "json \<Rightarrow> string" where
  "js_typeof JUndefined = ''undefined''"
| "js_typeof JNull = ''object''"
| "js_typeof (JBool b) = ''boolean''"
| "js_typeof (JNum n) = ''number''"
| "js_typeof (JStr s) = ''string''"
| "js_typeof (JArr xs) = ''object''"
| "js_typeof (JObj kvs) = ''object''"

text \<open>Decimal rendering of a counter inside a template string.\<close>

definition digit_char :: "nat \<Rightarrow> char" where
  "digit_char d = ''0123456789'' ! d"

fun show_nat :: "nat \<Rightarrow> string" where
  "show_nat n = (if n < 10 then [digit_char n] else show_nat (n div 10) @ [digit_char (n mod 10)])"

declare show_nat.simps [simp del]

definition show_int :: "int \<Rightarrow> string" where
  "show_int i = (if i < 0 then CHR ''-'' # show_nat (nat (- i)) else show_nat (nat i))"

section \<open>Validation-schema nodes (zod)\<close>

text \<open>
  What the translator reads of a node's \<open>_def\<close>: the optional \<open>description\<close>, the
  \<open>openapi\<close> entry that the zod-to-openapi extension may have attached (\<open>JUndefined\<close>
  when there is none), and the answer of the node's \<open>isOptional()\<close> method, which is
  code of the zod library and is carried here as a field of the node.
\<close>

record zod_def =
  zd_description :: "string option"
  zd_openapi :: json
  zd_isOptional :: bool

text \<open>
  One constructor for each \<open>typeName\<close> the translator dispatches on; \<open>ZodOther\<close> is a node
  with any other type name. The shape of an object is the list of its fields in the order
  \<open>for (const key in shape)\<close> enumerates them. A union whose \<open>options\<close> are missing
  translates like a union of no options, so the options are a plain list.
\<close>

datatype zod =
    ZodString zod_def
  | ZodNumber zod_def
  | ZodBoolean zod_def
  | ZodArray zod_def zod
  | ZodObject zod_def "(string \<times> zod) list"
  | ZodEnum zod_def "string list"
  | ZodLiteral zod_def json
  | ZodUnion zod_def "zod list"
  | ZodDiscriminatedUnion zod_def "zod list"
  | ZodOptional zod_def zod
  | ZodNullable zod_def zod
  | ZodDefault zod_def zod json
  | ZodRecord zod_def zod
  | ZodOther zod_def string

fun def_of :: "zod \<Rightarrow> zod_def" where
  "def_of (ZodString d) = d"
| "def_of (ZodNumber d) = d"
| "def_of (ZodBoolean d) = d"
| "def_of (ZodArray d t) = d"
| "def_of (ZodObject d shape) = d"
| "def_of (ZodEnum d vs) = d"
| "def_of (ZodLiteral d v) = d"
| "def_of (ZodUnion d os) = d"
| "def_of (ZodDiscriminatedUnion d os) = d"
| "def_of (ZodOptional d t) = d"
| "def_of (ZodNullable d t) = d"
| "def_of (ZodDefault d t v) = d"
| "def_of (ZodRecord d t) = d"
| "def_of (ZodOther d n) = d"

definition isOptional :: "zod \<Rightarrow> bool" where
  "isOptional s = zd_isOptional (def_of s)"

section \<open>Channel configuration and the registry\<close>

record MessageConfig =
  mc_payload :: "zod option"
  mc_headers :: "zod option"
  mc_contentType :: "string option"
  mc_description :: "string option"
  mc_summary :: "string option"
  mc_name :: "string option"

record ChannelConfig =
  cc_path :: string
  cc_description :: "string option"
  cc_send :: "MessageConfig option"
  cc_receive :: "MessageConfig option"
  cc_parameters :: "(string \<times> zod) list option"
  cc_servers :: "string list option"
  cc_tags :: "string list option"

text \<open>A handler is a function the compiler never calls: an opaque reference.\<close>

type_synonym ChannelHandler = nat

record OperationMetadata =
  operationId :: string
  om_summary :: "string option"
  om_description :: "string option"
  om_tags :: "string list option"

record ChannelOperations =
  ops_send :: "OperationMetadata option"
  ops_receive :: "OperationMetadata option"

record RegisteredChannel =
  rc_config :: ChannelConfig
  rc_handler :: "ChannelHandler option"
  rc_operations :: ChannelOperations

record AsyncAPIRegistry =
  channels :: "(string \<times> RegisteredChannel) list"
  operationCounter :: nat

definition new_registry :: AsyncAPIRegistry where
  "new_registry = \<lparr>channels = [], operationCounter = 0\<rparr>"

text \<open>
  \<open>registerChannel\<close>: the send operation, when the configuration has a send message, takes
  the counter's value and increments it; the receive operation does the same after it; the
  entry is then stored under the channel id (\<open>cid\<close> below).
\<close>

definition registerChannel ::
  "string \<Rightarrow> ChannelConfig \<Rightarrow> ChannelHandler option \<Rightarrow> AsyncAPIRegistry \<Rightarrow> AsyncAPIRegistry" where
  "registerChannel cid config handler r =
     (let c0 = operationCounter r;
          (send_op, c1) =
            (case cc_send config of
               Some m \<Rightarrow>
                 (Some \<lparr>operationId = ''send_'' @ cid @ ''_'' @ show_nat c0,
                        om_summary = mc_summary m,
                        om_description = mc_description m,
                        om_tags = cc_tags config\<rparr>, c0 + 1)
             | None \<Rightarrow> (None, c0));
          (receive_op, c2) =
            (case cc_receive config of
               Some m \<Rightarrow>
                 (Some \<lparr>operationId = ''receive_'' @ cid @ ''_'' @ show_nat c1,
                        om_summary = mc_summary m,
                        om_description = mc_description m,
                        om_tags = cc_tags config\<rparr>, c1 + 1)
             | None \<Rightarrow> (None, c1))
      in \<lparr>channels =
            obj_set cid
              \<lparr>rc_config = config, rc_handler = handler,
               rc_operations = \<lparr>ops_send = send_op, ops_receive = receive_op\<rparr>\<rparr>
              (channels r),
          operationCounter = c2\<rparr>)"

definition getChannel :: "AsyncAPIRegistry \<Rightarrow> string \<Rightarrow> RegisteredChannel option" where
  "getChannel r cid = map_of (channels r) cid"

definition getAllChannels :: "AsyncAPIRegistry \<Rightarrow> (string \<times> RegisteredChannel) list" where
  "getAllChannels r = channels r"

definition clear :: "AsyncAPIRegistry \<Rightarrow> AsyncAPIRegistry" where
  "clear r = \<lparr>channels = [], operationCounter = 0\<rparr>"

text \<open>\<open>merge\<close>: every entry of \<open>other\<close>, in its order, is set in \<open>this\<close>; the counter stays.\<close>

definition merge :: "AsyncAPIRegistry \<Rightarrow> AsyncAPIRegistry \<Rightarrow> AsyncAPIRegistry" where
  "merge this other =
     this\<lparr>channels := fold (\<lambda>(cid, channel) cs. obj_set cid channel cs)
                          (getAllChannels other) (channels this)\<rparr>"

text \<open>The operation identifiers one entry holds, send first.\<close>

definition operationIds_of :: "RegisteredChannel \<Rightarrow> string list" where
  "operationIds_of e =
     (case ops_send (rc_operations e) of Some m \<Rightarrow> [operationId m] | None \<Rightarrow> [])
     @ (case ops_receive (rc_operations e) of Some m \<Rightarrow> [operationId m] | None \<Rightarrow> [])"

definition all_operationIds :: "AsyncAPIRegistry \<Rightarrow> string list" where
  "all_operationIds r = concat (map (\<lambda>(cid, e). operationIds_of e) (channels r))"

text \<open>The directions a configuration has, and the operation an entry holds for one.\<close>

datatype OperationAction = Send | Receive

fun action_name :: "OperationAction \<Rightarrow> string" where
  "action_name Send = ''send''"
| "action_name Receive = ''receive''"

definition directions :: "ChannelConfig \<Rightarrow> OperationAction list" where
  "directions config =
     (case cc_send config of Some m \<Rightarrow> [Send] | None \<Rightarrow> [])
     @ (case cc_receive config of Some m \<Rightarrow> [Receive] | None \<Rightarrow> [])"

fun operation_of :: "RegisteredChannel \<Rightarrow> OperationAction \<Rightarrow> OperationMetadata option" where
  "operation_of e Send = ops_send (rc_operations e)"
| "operation_of e Receive = ops_receive (rc_operations e)"

section \<open>Example inputs\<close>

definition empty_def :: zod_def where
  "empty_def = \<lparr>zd_description = None, zd_openapi = JUndefined, zd_isOptional = False\<rparr>"

definition text_message :: MessageConfig where
  "text_message = \<lparr>mc_payload = Some (ZodString empty_def), mc_headers = None,
     mc_contentType = None, mc_description = None, mc_summary = None, mc_name = None\<rparr>"

definition send_channel :: ChannelConfig where
  "send_channel = \<lparr>cc_path = ''/chat/:roomId'', cc_description = None,
     cc_send = Some text_message, cc_receive = None, cc_parameters = None,
     cc_servers = None, cc_tags = None\<rparr>"

definition receive_channel :: ChannelConfig where
  "receive_channel = \<lparr>cc_path = ''/events'', cc_description = None,
     cc_send = None, cc_receive = Some text_message, cc_parameters = None,
     cc_servers = None, cc_tags = None\<rparr>"

section \<open>Programs over several registries\<close>

text \<open>
  Registries are objects: \<open>merge\<close> reads one and writes another, and the two may be the
  same object. The store holds the registries a program has created, addressed by their
  index; a call on an address that does not exist leaves the store as it is. The calls are
  the constructor and the operations of the registry other than \<open>clear\<close>.
\<close>

type_synonym registry_store = "AsyncAPIRegistry list"

datatype registry_call =
    New
  | RegisterChannel nat string ChannelConfig "ChannelHandler option"
  | GetChannel nat string
  | GetAllChannels nat
  | Merge nat nat

fun call :: "registry_call \<Rightarrow> registry_store \<Rightarrow> registry_store" where
  "call New s = s @ [new_registry]"
| "call (RegisterChannel a cid config handler) s =
     (if a < length s then s[a := registerChannel cid config handler (s ! a)] else s)"
| "call (GetChannel a cid) s = s"
| "call (GetAllChannels a) s = s"
| "call (Merge a b) s =
     (if a < length s \<and> b < length s then s[a := merge (s ! a) (s ! b)] else s)"

definition run :: "registry_call list \<Rightarrow> registry_store" where
  "run calls = fold call calls []"

text \<open>
  The invariant of a registry: each key occurs once (it is a \<open>Map\<close>), and the entry under
  a key holds identifiers built from that key.
\<close>

definition id_of_channel :: "string \<Rightarrow> string \<Rightarrow> bool" where
  "id_of_channel cid i = (\<exists>d n. i = action_name d @ ''_'' @ cid @ ''_'' @ show_nat n)"

definition entry_tagged :: "string \<Rightarrow> RegisteredChannel \<Rightarrow> bool" where
  "entry_tagged cid e =
     ((\<forall>m. ops_send (rc_operations e) = Some m \<longrightarrow>
          (\<exists>n. operationId m = ''send_'' @ cid @ ''_'' @ show_nat n))
      \<and> (\<forall>m. ops_receive (rc_operations e) = Some m \<longrightarrow>
          (\<exists>n. operationId m = ''receive_'' @ cid @ ''_'' @ show_nat n)))"

definition registry_inv :: "AsyncAPIRegistry \<Rightarrow> bool" where
  "registry_inv r =
     (distinct (map fst (channels r))
      \<and> (\<forall>(cid, e) \<in> set (channels r). entry_tagged cid e))"

definition example_calls :: "registry_call list" where
  "example_calls =
     [New, New,
      RegisterChannel 0 ''chat'' send_channel None,
      RegisterChannel 1 ''events'' receive_channel None,
      GetChannel 0 ''chat'',
      GetAllChannels 1,
      Merge 0 1]"

definition example_store :: registry_store where
  "example_store =
     [registerChannel ''chat'' send_channel None new_registry,
      registerChannel ''events'' receive_channel None
        (registerChannel ''chat'' receive_channel None new_registry)]"

section \<open>The schema translator\<close>

text \<open>
  \<open>extractMetadata\<close> keeps a description that is present and not empty. The translator
  dispatches on the node's type name; an object literal with spreads is built by writing
  the spread entries into the literal's own.
\<close>

definition extractMetadata :: "zod_def \<Rightarrow> SchemaObject" where
  "extractMetadata d =
     (case zd_description d of
        Some s \<Rightarrow> (if s \<noteq> [] then [(''description'', JStr s)] else [])
      | None \<Rightarrow> [])"

fun generateSchemaFromZod :: "zod \<Rightarrow> SchemaObject" where
  "generateSchemaFromZod (ZodString d) =
     obj_spread [(''type'', JStr ''string'')] (extractMetadata d)"
| "generateSchemaFromZod (ZodNumber d) =
     obj_spread [(''type'', JStr ''number'')] (extractMetadata d)"
| "generateSchemaFromZod (ZodBoolean d) =
     obj_spread [(''type'', JStr ''boolean'')] (extractMetadata d)"
| "generateSchemaFromZod (ZodArray d t) =
     obj_spread [(''type'', JStr ''array''), (''items'', JObj (generateSchemaFromZod t))]
       (extractMetadata d)"
| "generateSchemaFromZod (ZodObject d shape) =
     (let (properties, required) =
            fold (\<lambda>(key, s) (properties, required).
                    (obj_set key (JObj (generateSchemaFromZod s)) properties,
                     if \<not> isOptional s then required @ [key] else required))
                 shape ([], [])
      in obj_spread
           (obj_spread [(''type'', JStr ''object''), (''properties'', JObj properties)]
              (if length required > 0 then [(''required'', JArr (map JStr required))] else []))
           (extractMetadata d))"
| "generateSchemaFromZod (ZodEnum d vs) =
     obj_spread [(''type'', JStr ''string''), (''enum'', JArr (map JStr vs))] (extractMetadata d)"
| "generateSchemaFromZod (ZodLiteral d v) =
     obj_spread [(''type'', JStr (js_typeof v)), (''enum'', JArr [v])] (extractMetadata d)"
| "generateSchemaFromZod (ZodUnion d os) =
     obj_spread [(''oneOf'', JArr (map (\<lambda>option. JObj (generateSchemaFromZod option)) os))]
       (extractMetadata d)"
| "generateSchemaFromZod (ZodDiscriminatedUnion d os) =
     obj_spread [(''oneOf'', JArr (map (\<lambda>option. JObj (generateSchemaFromZod option)) os))]
       (extractMetadata d)"
| "generateSchemaFromZod (ZodOptional d t) = generateSchemaFromZod t"
| "generateSchemaFromZod (ZodNullable d t) =
     obj_spread (generateSchemaFromZod t) [(''nullable'', JBool True)]"
| "generateSchemaFromZod (ZodDefault d t v) =
     obj_spread (generateSchemaFromZod t) [(''default'', v)]"
| "generateSchemaFromZod (ZodRecord d t) =
     obj_spread [(''type'', JStr ''object''),
                 (''additionalProperties'', JObj (generateSchemaFromZod t))]
       (extractMetadata d)"
| "generateSchemaFromZod (ZodOther d n) = [(''type'', JStr ''object'')]"

text \<open>
  The entry point returns the \<open>openapi\<close> entry of the node itself when it is truthy, as
  it is; only otherwise does it translate.
\<close>

definition zodToAsyncAPISchema :: "zod \<Rightarrow> json" where
  "zodToAsyncAPISchema s =
     (let generator = zd_openapi (def_of s)
      in if js_truthy generator then generator else JObj (generateSchemaFromZod s))"




definition has_key :: "string \<Rightarrow> SchemaObject \<Rightarrow> bool" where
  "has_key k obj = (map_of obj k \<noteq> None)"

text \<open>Example nodes.\<close>

definition described :: zod_def where
  "described = \<lparr>zd_description = Some ''a number'', zd_openapi = JUndefined,
     zd_isOptional = False\<rparr>"

definition optional_def :: zod_def where
  "optional_def = \<lparr>zd_description = None, zd_openapi = JUndefined, zd_isOptional = True\<rparr>"

definition with_openapi :: zod_def where
  "with_openapi = \<lparr>zd_description = None,
     zd_openapi = JObj [(''description'', JStr ''x'')], zd_isOptional = False\<rparr>"

definition example_object :: zod where
  "example_object =
     ZodObject empty_def
       [(''message'', ZodString empty_def),
        (''nick'', ZodOptional optional_def (ZodString empty_def)),
        (''count'', ZodNumber described)]"

section \<open>The document generator\<close>

text \<open>
  The objects of the generated document. Dictionaries are association lists; a schema is
  the value the translator returned. An entry of \<open>components.messages\<close> is either a
  message the generator built or whatever the caller supplied in the options.
\<close>

record Reference =
  ref :: string

record TagObject =
  tag_name :: string

record MessageObject =
  mo_contentType :: string
  mo_name :: "string option"
  mo_summary :: "string option"
  mo_description :: "string option"
  mo_payload :: "Reference option"
  mo_headers :: "Reference option"

record OperationObject =
  oo_action :: OperationAction
  oo_channel :: Reference
  oo_summary :: "string option"
  oo_description :: "string option"
  oo_messages :: "Reference list"
  oo_tags :: "TagObject list option"

record ChannelObject =
  co_address :: string
  co_description :: "string option"
  co_messages :: "(string \<times> Reference) list"
  co_servers :: "Reference list option"
  co_tags :: "TagObject list option"

datatype message_entry = Built MessageObject | Supplied json

text \<open>
  The options. A \<open>schemas\<close> or \<open>messages\<close> property of \<open>options.components\<close>, when
  present, holds an object; the other properties of \<open>options.components\<close> are copied by
  the spread and never read.
\<close>

record ComponentsOption =
  opt_schemas :: "(string \<times> json) list option"
  opt_messages :: "(string \<times> message_entry) list option"
  opt_other :: "(string \<times> json) list"

record GeneratorOptions =
  go_info :: json
  go_servers :: "json option"
  go_components :: "ComponentsOption option"

record ComponentsObject =
  schemas :: "(string \<times> json) list"
  messages :: "(string \<times> message_entry) list"
  other_components :: "(string \<times> json) list"

record AsyncAPIDocument =
  asyncapi :: string
  doc_info :: json
  doc_servers :: "json option"
  doc_channels :: "(string \<times> ChannelObject) list"
  doc_operations :: "(string \<times> OperationObject) list"
  doc_components :: ComponentsObject

text \<open>
  \<open>createMessageObject\<close> writes the payload schema under \<open>schema_<counter>\<close> and the headers
  schema under \<open>headers_<counter>\<close>, and returns the message that refers to them.
\<close>

definition createMessageObject ::
  "MessageConfig \<Rightarrow> ComponentsObject \<Rightarrow> nat \<Rightarrow> MessageObject \<times> ComponentsObject" where
  "createMessageObject messageConfig components counter =
     (let message = \<lparr>mo_contentType =
                        (case mc_contentType messageConfig of
                           Some c \<Rightarrow> if c \<noteq> [] then c else ''application/json''
                         | None \<Rightarrow> ''application/json''),
                      mo_name = mc_name messageConfig,
                      mo_summary = mc_summary messageConfig,
                      mo_description = mc_description messageConfig,
                      mo_payload = None,
                      mo_headers = None\<rparr>;
          (message, components) =
            (case mc_payload messageConfig of
               Some payload \<Rightarrow>
                 (let schemaKey = ''schema_'' @ show_nat counter;
                      schema = zodToAsyncAPISchema payload
                  in (message\<lparr>mo_payload := Some \<lparr>ref = ''#/components/schemas/'' @ schemaKey\<rparr>\<rparr>,
                      components\<lparr>schemas := obj_set schemaKey schema (schemas components)\<rparr>))
             | None \<Rightarrow> (message, components));
          (message, components) =
            (case mc_headers messageConfig of
               Some headers \<Rightarrow>
                 (let headersKey = ''headers_'' @ show_nat counter;
                      headersSchema = zodToAsyncAPISchema headers
                  in (message\<lparr>mo_headers := Some \<lparr>ref = ''#/components/schemas/'' @ headersKey\<rparr>\<rparr>,
                      components\<lparr>schemas := obj_set headersKey headersSchema (schemas components)\<rparr>))
             | None \<Rightarrow> (message, components))
      in (message, components))"

text \<open>The local variables of \<open>generateAsyncAPIDocument\<close> that its loop updates.\<close>

record generator_state =
  g_channels :: "(string \<times> ChannelObject) list"
  g_operations :: "(string \<times> OperationObject) list"
  g_components :: ComponentsObject
  schemaCounter :: nat
  messageCounter :: nat

definition tag_objects :: "string list option \<Rightarrow> TagObject list option" where
  "tag_objects tags =
     (case tags of
        Some ts \<Rightarrow> if length ts > 0 then Some (map (\<lambda>name. \<lparr>tag_name = name\<rparr>) ts) else None
      | None \<Rightarrow> None)"

text \<open>
  The body of \<open>if (config.send && ops.send)\<close>, which the source repeats for the receive
  direction: the message is created and stored, the operation is stored under its
  identifier, and both counters are incremented.
\<close>

definition add_operation ::
  "OperationAction \<Rightarrow> string \<Rightarrow> MessageConfig \<Rightarrow> OperationMetadata \<Rightarrow>
   generator_state \<times> (string \<times> MessageObject) list \<Rightarrow>
   generator_state \<times> (string \<times> MessageObject) list" where
  "add_operation action channelId messageConfig op st =
     (let (g, channelMessages) = st;
          messageKey = channelId @ ''_'' @ action_name action @ ''_message'';
          (message, components) =
             createMessageObject messageConfig (g_components g) (schemaCounter g);
          components = components\<lparr>messages := obj_set messageKey (Built message) (messages components)\<rparr>;
          channelMessages = obj_set messageKey message channelMessages;
          operations =
            obj_set (operationId op)
              \<lparr>oo_action = action,
               oo_channel = \<lparr>ref = ''#/channels/'' @ channelId\<rparr>,
               oo_summary = om_summary op,
               oo_description = om_description op,
               oo_messages = [\<lparr>ref = ''#/components/messages/'' @ messageKey\<rparr>],
               oo_tags = tag_objects (om_tags op)\<rparr>
              (g_operations g)
      in (g\<lparr>g_operations := operations, g_components := components,
            schemaCounter := schemaCounter g + 1, messageCounter := messageCounter g + 1\<rparr>,
          channelMessages))"

definition process_channel :: "string \<times> RegisteredChannel \<Rightarrow> generator_state \<Rightarrow> generator_state" where
  "process_channel entry g0 =
     (let (channelId, registered) = entry;
          config = rc_config registered;
          ops = rc_operations registered;
          st = (g0, []);
          st = (case (cc_send config, ops_send ops) of
                  (Some messageConfig, Some op) \<Rightarrow> add_operation Send channelId messageConfig op st
                | _ \<Rightarrow> st);
          st = (case (cc_receive config, ops_receive ops) of
                  (Some messageConfig, Some op) \<Rightarrow> add_operation Receive channelId messageConfig op st
                | _ \<Rightarrow> st);
          (g, channelMessages) = st
      in g\<lparr>g_channels :=
            obj_set channelId
              \<lparr>co_address = cc_path config,
               co_description = cc_description config,
               co_messages =
                 fold (\<lambda>key acc. obj_set key \<lparr>ref = ''#/components/messages/'' @ key\<rparr> acc)
                      (map fst channelMessages) [],
               co_servers =
                 map_option (map (\<lambda>s. \<lparr>ref = ''#/servers/'' @ s\<rparr>)) (cc_servers config),
               co_tags = tag_objects (cc_tags config)\<rparr>
              (g_channels g)\<rparr>)"

text \<open>
  The generator reads the registry and writes into \<open>components\<close>. The spread that builds
  \<open>components\<close> copies references: a \<open>schemas\<close> or \<open>messages\<close> object supplied in the
  options is the very object the generator writes into. The result of a call is therefore
  the document together with the registry and the options as the call leaves them.
\<close>

record generate_result =
  document :: AsyncAPIDocument
  registry_after :: AsyncAPIRegistry
  options_after :: GeneratorOptions

definition initial_components :: "GeneratorOptions \<Rightarrow> ComponentsObject" where
  "initial_components options =
     (case go_components options of
        None \<Rightarrow> \<lparr>schemas = [], messages = [], other_components = []\<rparr>
      | Some c \<Rightarrow>
          \<lparr>schemas = (case opt_schemas c of Some s \<Rightarrow> s | None \<Rightarrow> []),
           messages = (case opt_messages c of Some m \<Rightarrow> m | None \<Rightarrow> []),
           other_components = opt_other c\<rparr>)"

definition written_through :: "GeneratorOptions \<Rightarrow> ComponentsObject \<Rightarrow> GeneratorOptions" where
  "written_through options components =
     (case go_components options of
        None \<Rightarrow> options
      | Some c \<Rightarrow>
          options\<lparr>go_components :=
            Some (c\<lparr>opt_schemas := map_option (\<lambda>_. schemas components) (opt_schemas c),
                    opt_messages := map_option (\<lambda>_. messages components) (opt_messages c)\<rparr>)\<rparr>)"

definition generateAsyncAPIDocument :: "AsyncAPIRegistry \<Rightarrow> GeneratorOptions \<Rightarrow> generate_result" where
  "generateAsyncAPIDocument registry options =
     (let g = fold process_channel (getAllChannels registry)
                \<lparr>g_channels = [], g_operations = [],
                 g_components = initial_components options,
                 schemaCounter = 0, messageCounter = 0\<rparr>
      in \<lparr>document =
            \<lparr>asyncapi = ''3.0.0'',
             doc_info = go_info options,
             doc_servers = go_servers options,
             doc_channels = g_channels g,
             doc_operations = g_operations g,
             doc_components = g_components g\<rparr>,
          registry_after = registry,
          options_after = written_through options (g_components g)\<rparr>)"

text \<open>Example inputs of the generator.\<close>

definition headers_message :: MessageConfig where
  "headers_message = \<lparr>mc_payload = Some (ZodString empty_def),
     mc_headers = Some (ZodNumber empty_def),
     mc_contentType = None, mc_description = None, mc_summary = None, mc_name = None\<rparr>"

definition both_channel :: ChannelConfig where
  "both_channel = \<lparr>cc_path = ''/chat/:roomId'', cc_description = None,
     cc_send = Some headers_message, cc_receive = Some text_message, cc_parameters = None,
     cc_servers = None, cc_tags = Some [''chat'']\<rparr>"

definition example_options :: GeneratorOptions where
  "example_options = \<lparr>go_info = JObj [(''title'', JStr ''T''), (''version'', JStr ''1.0.0'')],
     go_servers = None, go_components = None\<rparr>"


text \<open>
  For stating what the generator stores: the messages it processes, in order (for each
  channel of the registry, send then receive, when both the configuration and the entry
  have the direction), and the writes they cause to the two dictionaries of
  \<open>components\<close> when the counter starts at \<open>c\<close>.
\<close>

type_synonym job = "string \<times> OperationAction \<times> MessageConfig \<times> OperationMetadata"

definition channel_jobs :: "string \<times> RegisteredChannel \<Rightarrow> job list" where
  "channel_jobs entry =
     (let (channelId, registered) = entry;
          config = rc_config registered;
          ops = rc_operations registered
      in (case (cc_send config, ops_send ops) of
            (Some messageConfig, Some op) \<Rightarrow> [(channelId, Send, messageConfig, op)]
          | _ \<Rightarrow> [])
         @ (case (cc_receive config, ops_receive ops) of
              (Some messageConfig, Some op) \<Rightarrow> [(channelId, Receive, messageConfig, op)]
            | _ \<Rightarrow> []))"

definition processed_messages :: "AsyncAPIRegistry \<Rightarrow> MessageConfig list" where
  "processed_messages registry =
     map (\<lambda>(channelId, action, messageConfig, op). messageConfig)
         (concat (map channel_jobs (getAllChannels registry)))"

fun schema_writes :: "nat \<Rightarrow> MessageConfig list \<Rightarrow> (string \<times> json) list" where
  "schema_writes c [] = []"
| "schema_writes c (m # ms) =
     (case mc_payload m of
        Some payload \<Rightarrow> [(''schema_'' @ show_nat c, zodToAsyncAPISchema payload)]
      | None \<Rightarrow> [])
     @ (case mc_headers m of
          Some headers \<Rightarrow> [(''headers_'' @ show_nat c, zodToAsyncAPISchema headers)]
        | None \<Rightarrow> [])
     @ schema_writes (c + 1) ms"

definition empty_components :: ComponentsObject where
  "empty_components = \<lparr>schemas = [], messages = [], other_components = []\<rparr>"

fun message_writes :: "nat \<Rightarrow> job list \<Rightarrow> (string \<times> message_entry) list" where
  "message_writes c [] = []"
| "message_writes c ((channelId, action, messageConfig, op) # js) =
     (channelId @ ''_'' @ action_name action @ ''_message'',
      Built (fst (createMessageObject messageConfig empty_components c)))
     # message_writes (c + 1) js"

definition job_messages :: "job list \<Rightarrow> MessageConfig list" where
  "job_messages js = map (\<lambda>(channelId, action, messageConfig, op). messageConfig) js"

definition apply_writes :: "nat \<Rightarrow> job list \<Rightarrow> ComponentsObject \<Rightarrow> ComponentsObject" where
  "apply_writes c js components =
     components
       \<lparr>schemas := fold (\<lambda>(k, v) acc. obj_set k v acc)
                       (schema_writes c (job_messages js)) (schemas components),
        messages := fold (\<lambda>(k, v) acc. obj_set k v acc)
                       (message_writes c js) (messages components)\<rparr>"

definition example_registry :: AsyncAPIRegistry where
  "example_registry = registerChannel ''chat'' both_channel None new_registry"




section \<open>The YAML emitter\<close>

text \<open>
  A value inside a template string: the text JavaScript gives for it. The emitter only
  reaches it with values that are not objects; an array is its elements joined by
  commas, \<open>null\<close> and \<open>undefined\<close> elements giving nothing.
\<close>

fun join_comma :: "string list \<Rightarrow> string" where
  "join_comma [] = []"
| "join_comma [x] = x"
| "join_comma (x # y # ys) = x @ '','' @ join_comma (y # ys)"

fun js_template :: "json \<Rightarrow> string" where
  "js_template JUndefined = ''undefined''"
| "js_template JNull = ''null''"
| "js_template (JBool b) = (if b then ''true'' else ''false'')"
| "js_template (JNum n) = show_int n"
| "js_template (JStr s) = s"
| "js_template (JArr xs) =
     join_comma (map (\<lambda>x. case x of JUndefined \<Rightarrow> [] | JNull \<Rightarrow> [] | _ \<Rightarrow> js_template x) xs)"
| "js_template (JObj kvs) = ''[object Object]''"

definition newline :: string where
  "newline = [CHR 0x0A]"

definition double_quote :: string where
  "double_quote = [CHR 0x22]"

definition spaces_of :: "nat \<Rightarrow> string" where
  "spaces_of indent = concat (replicate indent ''  '')"

fun is_object :: "json \<Rightarrow> bool" where
  "is_object (JArr xs) = True"
| "is_object (JObj kvs) = True"
| "is_object _ = False"

fun is_string :: "json \<Rightarrow> bool" where
  "is_string (JStr s) = True"
| "is_string _ = False"

text \<open>
  \<open>convertToYAML\<close>: one line (or block) per array item and per object entry whose value
  is not \<open>undefined\<close>; anything that is neither an array nor an object gives the empty
  string. \<open>is_object\<close> is the test \<open>typeof x === 'object' && x !== null\<close>.
\<close>

fun convertToYAML :: "json \<Rightarrow> nat \<Rightarrow> string" where
  "convertToYAML (JArr items) indent =
     concat (map (\<lambda>item.
        if is_object item
        then spaces_of indent @ ''-'' @ newline @ convertToYAML item (indent + 1)
        else spaces_of indent @ ''- '' @ js_template item @ newline) items)"
| "convertToYAML (JObj entries) indent =
     concat (map (\<lambda>(key, val).
        if val = JUndefined then []
        else if is_object val
        then spaces_of indent @ key @ '':'' @ newline @ convertToYAML val (indent + 1)
        else if is_string val
        then spaces_of indent @ key @ '': '' @ double_quote @ js_template val @ double_quote @ newline
        else spaces_of indent @ key @ '': '' @ js_template val @ newline) entries)"
| "convertToYAML _ indent = []"

text \<open>The payload of the chat example: an object with one string field.\<close>

definition chat_payload :: zod where
  "chat_payload = ZodObject empty_def [(''message'', ZodString empty_def)]"

section \<open>Basic facts\<close>

lemma obj_set_update: "obj_set k v m = AList.update k v m"
  by (induction m) auto

lemma map_of_obj_set: "map_of (obj_set k v m) = (map_of m)(k \<mapsto> v)"
  by (simp add: obj_set_update update_conv')

lemma keys_obj_set:
  "map fst (obj_set k v m) = (if k \<in> set (map fst m) then map fst m else map fst m @ [k])"
  by (simp add: obj_set_update update_keys)

lemma distinct_obj_set: "distinct (map fst m) \<Longrightarrow> distinct (map fst (obj_set k v m))"
  by (simp add: keys_obj_set)

lemma show_nat_0: "show_nat 0 = ''0''"
  by (simp add: show_nat.simps digit_char_def)

lemma show_nat_1: "show_nat (Suc 0) = ''1''"
  by (simp add: show_nat.simps digit_char_def)

section \<open>The registry\<close>

lemma getChannel_registerChannel:
  "getChannel (registerChannel cid config handler r) cid' =
     (if cid' = cid then
        Some \<lparr>rc_config = config, rc_handler = handler,
              rc_operations = \<lparr>
                ops_send = (case cc_send config of
                   Some m \<Rightarrow> Some \<lparr>operationId = ''send_'' @ cid @ ''_'' @ show_nat (operationCounter r),
                        om_summary = mc_summary m, om_description = mc_description m,
                        om_tags = cc_tags config\<rparr>
                 | None \<Rightarrow> None),
                ops_receive = (case cc_receive config of
                   Some m \<Rightarrow> Some \<lparr>operationId = ''receive_'' @ cid @ ''_'' @
                          show_nat (operationCounter r + (case cc_send config of Some m \<Rightarrow> 1 | None \<Rightarrow> 0)),
                        om_summary = mc_summary m, om_description = mc_description m,
                        om_tags = cc_tags config\<rparr>
                 | None \<Rightarrow> None)\<rparr>\<rparr>
      else getChannel r cid')"
  by (auto simp: getChannel_def registerChannel_def map_of_obj_set Let_def split: option.splits)

lemma operationCounter_registerChannel:
  "operationCounter (registerChannel cid config handler r) =
     operationCounter r + length (directions config)"
  by (auto simp: registerChannel_def directions_def Let_def split: option.splits)

text \<open>
  C2. For every registry, channel id and configuration, each direction the configuration
  has gets the identifier \<open><direction>_<channelId>_<sequence>\<close>, the sequence being the
  registry's counter (one more for the receive operation when there is a send operation);
  the counter grows by the number of directions; and two registrations of one direction
  each on a fresh registry give identifiers ending in \<open>_0\<close> and \<open>_1\<close>.
\<close>

theorem registerChannel_assigns_operationId:
  "(\<forall>d \<in> set (directions config).
      \<exists>e m. getChannel (registerChannel cid config handler r) cid = Some e
        \<and> operation_of e d = Some m
        \<and> operationId m = action_name d @ ''_'' @ cid @ ''_''
             @ show_nat (operationCounter r
                 + (if d = Receive \<and> cc_send config \<noteq> None then 1 else 0)))
   \<and> operationCounter (registerChannel cid config handler r)
       = operationCounter r + length (directions config)
   \<and> (directions c1 = [d1] \<and> directions c2 = [d2] \<longrightarrow>
        map_option operationIds_of (getChannel (registerChannel id1 c1 h1 new_registry) id1)
          = Some [action_name d1 @ ''_'' @ id1 @ ''_0'']
      \<and> map_option operationIds_of
           (getChannel (registerChannel id2 c2 h2 (registerChannel id1 c1 h1 new_registry)) id2)
          = Some [action_name d2 @ ''_'' @ id2 @ ''_1''])"
proof (intro conjI ballI impI)
  fix d assume "d \<in> set (directions config)"
  then show "\<exists>e m. getChannel (registerChannel cid config handler r) cid = Some e
        \<and> operation_of e d = Some m
        \<and> operationId m = action_name d @ ''_'' @ cid @ ''_''
             @ show_nat (operationCounter r
                 + (if d = Receive \<and> cc_send config \<noteq> None then 1 else 0))"
    by (cases d) (auto simp: getChannel_registerChannel directions_def split: option.splits)
next
  show "operationCounter (registerChannel cid config handler r)
       = operationCounter r + length (directions config)"
    by (rule operationCounter_registerChannel)
next
  assume a: "directions c1 = [d1] \<and> directions c2 = [d2]"
  then show "map_option operationIds_of (getChannel (registerChannel id1 c1 h1 new_registry) id1)
          = Some [action_name d1 @ ''_'' @ id1 @ ''_0'']"
    by (auto simp: getChannel_registerChannel directions_def operationIds_of_def new_registry_def
          show_nat_0 split: option.splits)
next
  assume a: "directions c1 = [d1] \<and> directions c2 = [d2]"
  then have "operationCounter (registerChannel id1 c1 h1 new_registry) = 1"
    by (simp add: operationCounter_registerChannel new_registry_def)
  with a show "map_option operationIds_of
           (getChannel (registerChannel id2 c2 h2 (registerChannel id1 c1 h1 new_registry)) id2)
          = Some [action_name d2 @ ''_'' @ id2 @ ''_1'']"
    by (auto simp: getChannel_registerChannel directions_def operationIds_of_def
          show_nat_1 split: option.splits)
qed

lemma directions_send_channel: "directions send_channel = [Send]"
  by (simp add: directions_def send_channel_def)

lemma directions_receive_channel: "directions receive_channel = [Receive]"
  by (simp add: directions_def receive_channel_def)

theorem registerChannel_assigns_operationId_witness:
  "map_option operationIds_of
     (getChannel (registerChannel ''chat'' send_channel None new_registry) ''chat'')
     = Some [''send_chat_0'']
   \<and> map_option operationIds_of
       (getChannel (registerChannel ''events'' receive_channel None
          (registerChannel ''chat'' send_channel None new_registry)) ''events'')
     = Some [''receive_events_1'']
   \<and> operationCounter (registerChannel ''chat'' send_channel None new_registry) = 1"
  using registerChannel_assigns_operationId
    [of send_channel "''chat''" None new_registry send_channel Send receive_channel Receive
        "''chat''" None "''events''" None]
  by (simp add: directions_send_channel directions_receive_channel new_registry_def)

text \<open>
  C8. For every registry, \<open>clear\<close> leaves no entry and the counter at zero, so that a
  registration made right after it gives its first operation (send when the configuration
  has one, receive otherwise) the identifier \<open><direction>_<channelId>_0\<close>.
\<close>

theorem clear_resets:
  "getAllChannels (clear r) = []
   \<and> operationCounter (clear r) = 0
   \<and> (\<forall>d ds. directions config = d # ds \<longrightarrow>
        (\<exists>e m. getChannel (registerChannel cid config handler (clear r)) cid = Some e
           \<and> operation_of e d = Some m
           \<and> operationId m = action_name d @ ''_'' @ cid @ ''_0''))"
proof (intro conjI allI impI)
  fix d ds assume a: "directions config = d # ds"
  show "\<exists>e m. getChannel (registerChannel cid config handler (clear r)) cid = Some e
           \<and> operation_of e d = Some m
           \<and> operationId m = action_name d @ ''_'' @ cid @ ''_0''"
    using a
    by (cases d)
       (auto simp: getChannel_registerChannel directions_def clear_def show_nat_0
             split: option.splits)
qed (simp_all add: clear_def getAllChannels_def)

theorem clear_resets_witness:
  "directions receive_channel = [Receive]
   \<and> (\<exists>e m. getChannel (registerChannel ''events'' receive_channel None
               (clear (registerChannel ''chat'' send_channel None new_registry))) ''events'' = Some e
         \<and> operation_of e Receive = Some m
         \<and> operationId m = ''receive_events_0'')"
  using clear_resets [of "registerChannel ''chat'' send_channel None new_registry"
      receive_channel "''events''" None]
  by (simp add: directions_receive_channel)

subsection \<open>Merging\<close>

lemma set_obj_set: "set (obj_set k v m) \<subseteq> insert (k, v) (set m)"
  by (induction m) (auto split: if_splits)

lemma set_fold_obj_set:
  "set (fold (\<lambda>(k, v) acc. obj_set k v acc) xs m) \<subseteq> set xs \<union> set m"
proof (induction xs arbitrary: m)
  case Nil
  then show ?case by simp
next
  case (Cons x xs)
  obtain k v where x: "x = (k, v)" by (cases x)
  have "set (fold (\<lambda>(k, v) acc. obj_set k v acc) xs (obj_set k v m))
          \<subseteq> set xs \<union> set (obj_set k v m)"
    by (rule Cons.IH)
  with set_obj_set [of k v m] show ?case
    by (auto simp: x)
qed

lemma distinct_fold_obj_set:
  "distinct (map fst m) \<Longrightarrow> distinct (map fst (fold (\<lambda>(k, v) acc. obj_set k v acc) xs m))"
  by (induction xs arbitrary: m) (auto simp: distinct_obj_set)

lemma map_of_fold_obj_set:
  "map_of (fold (\<lambda>(k, v) acc. obj_set k v acc) xs m) = map_of m ++ map_of (rev xs)"
  by (induction xs arbitrary: m) (auto simp: map_of_obj_set map_add_def fun_eq_iff split: option.splits)

lemma map_of_rev_distinct: "distinct (map fst xs) \<Longrightarrow> map_of (rev xs) = map_of xs"
  by (rule map_of_inject_set [THEN iffD2]) (simp_all add: rev_map [symmetric])

lemma obj_set_same: "map_of m k = Some v \<Longrightarrow> obj_set k v m = m"
  by (simp add: obj_set_update update_triv)

lemma fold_obj_set_same:
  "\<forall>(k, v) \<in> set xs. map_of m k = Some v \<Longrightarrow> fold (\<lambda>(k, v) acc. obj_set k v acc) xs m = m"
  by (induction xs) (auto simp: obj_set_same)

lemma fold_obj_set_self:
  "distinct (map fst m) \<Longrightarrow> fold (\<lambda>(k, v) acc. obj_set k v acc) m m = m"
  by (rule fold_obj_set_same) auto

lemma merge_self: "distinct (map fst (channels r)) \<Longrightarrow> merge r r = r"
  by (simp add: merge_def getAllChannels_def fold_obj_set_self)

lemma getChannel_merge:
  "distinct (map fst (channels B)) \<Longrightarrow>
   getChannel (merge A B) cid =
     (case getChannel B cid of Some e \<Rightarrow> Some e | None \<Rightarrow> getChannel A cid)"
  by (simp add: getChannel_def merge_def getAllChannels_def map_of_fold_obj_set
        map_of_rev_distinct map_add_def split: option.splits)

text \<open>
  C4. For every store and registries A (at \<open>a\<close>) and B (at \<open>b\<close>, each key once, as in a
  \<open>Map\<close>), after \<open>A.merge(B)\<close> every channel id of B maps in A to B's entry, every
  channel id that B does not have keeps in A what it had, B is unmodified (also when A
  and B are the same object), and A's counter is unchanged.
\<close>

theorem merge_entries:
  assumes "a < length s" and "b < length s"
    and "distinct (map fst (channels (s ! b)))"
  shows "(\<forall>cid e. getChannel (s ! b) cid = Some e \<longrightarrow>
            getChannel (call (Merge a b) s ! a) cid = Some e)
       \<and> (\<forall>cid. getChannel (s ! b) cid = None \<longrightarrow>
            getChannel (call (Merge a b) s ! a) cid = getChannel (s ! a) cid)
       \<and> call (Merge a b) s ! b = s ! b
       \<and> operationCounter (call (Merge a b) s ! a) = operationCounter (s ! a)"
proof -
  have b: "call (Merge a b) s ! b = s ! b"
    using assms by (cases "a = b") (simp_all add: merge_self)
  have a: "call (Merge a b) s ! a = merge (s ! a) (s ! b)"
    using assms by simp
  have c: "operationCounter (merge (s ! a) (s ! b)) = operationCounter (s ! a)"
    by (simp add: merge_def)
  show ?thesis
    unfolding a using b c assms(3) by (simp add: getChannel_merge)
qed



subsection \<open>Uniqueness of operation identifiers\<close>

lemma digit_char_not_underscore: "d < 10 \<Longrightarrow> digit_char d \<noteq> CHR ''_''"
proof -
  assume "d < 10"
  then have "digit_char d \<in> set ''0123456789''"
    unfolding digit_char_def by (intro nth_mem) simp
  then show ?thesis by auto
qed

lemma show_nat_no_underscore: "CHR ''_'' \<notin> set (show_nat n)"
proof (induction n rule: show_nat.induct)
  case (1 n)
  show ?case
  proof (cases "n < 10")
    case True
    then show ?thesis
      using digit_char_not_underscore [of n] by (auto simp: show_nat.simps [of n])
  next
    case False
    with 1 show ?thesis
      using digit_char_not_underscore [of "n mod 10"] by (auto simp: show_nat.simps [of n])
  qed
qed

lemma split_at_last:
  "c \<notin> set d1 \<Longrightarrow> c \<notin> set d2 \<Longrightarrow> k1 @ c # d1 = k2 @ c # d2 \<Longrightarrow> k1 = k2 \<and> d1 = d2"
proof (induction k1 arbitrary: k2)
  case Nil
  then show ?case by (cases k2) auto
next
  case (Cons x k1)
  then show ?case by (cases k2) auto
qed

lemma id_of_channel_unique:
  assumes "id_of_channel k i" and "id_of_channel k' i"
  shows "k = k'"
proof -
  from assms obtain d n d' n' where
    e: "action_name d @ ''_'' @ k @ ''_'' @ show_nat n
        = action_name d' @ ''_'' @ k' @ ''_'' @ show_nat n'"
    unfolding id_of_channel_def by metis
  have dd: "d = d'"
    using e by (cases d; cases d') simp_all
  from e have "k @ CHR ''_'' # show_nat n = k' @ CHR ''_'' # show_nat n'"
    unfolding dd by (cases d') simp_all
  then show ?thesis
    using split_at_last [OF show_nat_no_underscore show_nat_no_underscore] by blast
qed

lemma tagged_ids:
  "entry_tagged k e \<Longrightarrow> i \<in> set (operationIds_of e) \<Longrightarrow> id_of_channel k i"
proof -
  assume t: "entry_tagged k e" and i: "i \<in> set (operationIds_of e)"
  from i have "(\<exists>m. ops_send (rc_operations e) = Some m \<and> i = operationId m)
      \<or> (\<exists>m. ops_receive (rc_operations e) = Some m \<and> i = operationId m)"
    by (cases "ops_send (rc_operations e)"; cases "ops_receive (rc_operations e)")
       (auto simp: operationIds_of_def)
  then consider
      m where "ops_send (rc_operations e) = Some m" "i = operationId m"
    | m where "ops_receive (rc_operations e) = Some m" "i = operationId m"
    by blast
  then show ?thesis
  proof cases
    case 1
    with t obtain n where "i = action_name Send @ ''_'' @ k @ ''_'' @ show_nat n"
      unfolding entry_tagged_def by auto
    then show ?thesis unfolding id_of_channel_def by blast
  next
    case 2
    with t obtain n where "i = action_name Receive @ ''_'' @ k @ ''_'' @ show_nat n"
      unfolding entry_tagged_def by auto
    then show ?thesis unfolding id_of_channel_def by blast
  qed
qed

lemma tagged_distinct: "entry_tagged k e \<Longrightarrow> distinct (operationIds_of e)"
  by (auto simp: entry_tagged_def operationIds_of_def split: option.splits)

lemma distinct_tagged_ids:
  "distinct (map fst xs) \<Longrightarrow> \<forall>(k, e) \<in> set xs. entry_tagged k e \<Longrightarrow>
   distinct (concat (map (\<lambda>(k, e). operationIds_of e) xs))"
proof (induction xs)
  case Nil
  then show ?case by simp
next
  case (Cons x xs)
  obtain k e where x: "x = (k, e)" by (cases x)
  have tk: "entry_tagged k e" using Cons.prems(2) by (simp add: x)
  have rest: "distinct (concat (map (\<lambda>(k, e). operationIds_of e) xs))"
    using Cons by simp
  have disj: "set (operationIds_of e) \<inter> set (concat (map (\<lambda>(k, e). operationIds_of e) xs)) = {}"
  proof (rule ccontr)
    assume "\<not> ?thesis"
    then obtain i k' e' where i: "i \<in> set (operationIds_of e)"
      and m: "(k', e') \<in> set xs" and i': "i \<in> set (operationIds_of e')"
      by auto
    have "entry_tagged k' e'" using Cons.prems(2) m by auto
    then have "id_of_channel k' i" using i' by (rule tagged_ids)
    moreover have "id_of_channel k i" using tk i by (rule tagged_ids)
    ultimately have "k = k'" by (rule id_of_channel_unique [rotated])
    moreover have "k \<notin> fst ` set xs" using Cons.prems(1) by (simp add: x)
    ultimately show False using m by force
  qed
  show ?case
    using rest disj tagged_distinct [OF tk] by (simp add: x)
qed

lemma registry_inv_distinct: "registry_inv r \<Longrightarrow> distinct (all_operationIds r)"
  unfolding registry_inv_def all_operationIds_def by (rule distinct_tagged_ids) auto

lemma registry_inv_new: "registry_inv new_registry"
  by (simp add: registry_inv_def new_registry_def)

lemma registry_inv_clear: "registry_inv (clear r)"
  by (simp add: registry_inv_def clear_def)

lemma registry_inv_registerChannel:
  assumes "registry_inv r"
  shows "registry_inv (registerChannel cid config handler r)"
proof -
  let ?e = "the (getChannel (registerChannel cid config handler r) cid)"
  have ch: "channels (registerChannel cid config handler r) = obj_set cid ?e (channels r)"
    by (simp add: getChannel_registerChannel)
       (simp add: registerChannel_def Let_def split: option.splits)
  have te: "entry_tagged cid ?e"
    by (auto simp: getChannel_registerChannel entry_tagged_def split: option.splits)
  show ?thesis
    unfolding registry_inv_def ch
    using assms te set_obj_set [of cid ?e "channels r"]
    by (auto simp: registry_inv_def distinct_obj_set)
qed

lemma registry_inv_merge:
  assumes "registry_inv A" and "registry_inv B"
  shows "registry_inv (merge A B)"
  using assms set_fold_obj_set [of "channels B" "channels A"]
  by (auto simp: registry_inv_def merge_def getAllChannels_def distinct_fold_obj_set)

lemma call_inv:
  "\<forall>r \<in> set s. registry_inv r \<Longrightarrow> \<forall>r \<in> set (call c s). registry_inv r"
proof (cases c)
  case New
  then show "\<forall>r \<in> set s. registry_inv r \<Longrightarrow> ?thesis" by (auto simp: registry_inv_new)
next
  case (RegisterChannel a cid config handler)
  assume inv: "\<forall>r \<in> set s. registry_inv r"
  show ?thesis
  proof (cases "a < length s")
    case True
    then have "registry_inv (registerChannel cid config handler (s ! a))"
      using inv by (simp add: registry_inv_registerChannel)
    with inv True show ?thesis
      unfolding RegisterChannel by (auto dest!: subsetD [OF set_update_subset_insert])
  next
    case False
    with inv show ?thesis unfolding RegisterChannel by simp
  qed
next
  case (GetChannel a cid)
  then show "\<forall>r \<in> set s. registry_inv r \<Longrightarrow> ?thesis" by simp
next
  case (GetAllChannels a)
  then show "\<forall>r \<in> set s. registry_inv r \<Longrightarrow> ?thesis" by simp
next
  case (Merge a b)
  assume inv: "\<forall>r \<in> set s. registry_inv r"
  show ?thesis
  proof (cases "a < length s \<and> b < length s")
    case True
    then have "registry_inv (merge (s ! a) (s ! b))"
      using inv by (simp add: registry_inv_merge)
    with inv True show ?thesis
      unfolding Merge by (auto dest!: subsetD [OF set_update_subset_insert])
  next
    case False
    with inv show ?thesis unfolding Merge by auto
  qed
qed

lemma fold_call_inv:
  "\<forall>r \<in> set s. registry_inv r \<Longrightarrow> \<forall>r \<in> set (fold call calls s). registry_inv r"
proof (induction calls arbitrary: s)
  case Nil
  then show ?case by simp
next
  case (Cons c calls)
  show ?case
    unfolding fold_simps by (rule Cons.IH) (rule call_inv [OF Cons.prems])
qed

lemma run_inv: "r \<in> set (run calls) \<Longrightarrow> registry_inv r"
  using fold_call_inv [of "[]" calls] by (simp add: run_def)

text \<open>
  C3. For every sequence of constructor, \<open>registerChannel\<close>, \<open>getChannel\<close>,
  \<open>getAllChannels\<close> and \<open>merge\<close> calls (no \<open>clear\<close>), the operation identifiers stored
  in the entries of any one registry are pairwise distinct.
\<close>

theorem operationIds_distinct:
  "\<forall>r \<in> set (run calls). distinct (all_operationIds r)"
  by (blast intro: registry_inv_distinct run_inv)

lemma run_example_ids:
  "all_operationIds (run example_calls ! 0) = [''send_chat_0'', ''receive_events_0'']"
  by code_simp

lemma run_example_len: "length (run example_calls) = 2"
  by code_simp

theorem operationIds_distinct_witness:
  "run example_calls ! 0 \<in> set (run example_calls)
   \<and> all_operationIds (run example_calls ! 0) = [''send_chat_0'', ''receive_events_0'']
   \<and> distinct (all_operationIds (run example_calls ! 0))"
proof -
  have m: "run example_calls ! 0 \<in> set (run example_calls)"
    by (rule nth_mem) (simp add: run_example_len)
  with operationIds_distinct [of example_calls] run_example_ids m show ?thesis
    by blast
qed

lemma example_store_distinct: "distinct (map fst (channels (example_store ! 1)))"
  by code_simp

theorem merge_entries_witness:
  "getChannel (call (Merge 0 1) example_store ! 0) ''chat'' = getChannel (example_store ! 1) ''chat''
   \<and> getChannel (example_store ! 1) ''chat'' \<noteq> None
   \<and> getChannel (example_store ! 1) ''chat'' \<noteq> getChannel (example_store ! 0) ''chat''
   \<and> call (Merge 0 1) example_store ! 1 = example_store ! 1"
proof -
  have l: "0 < length example_store" "1 < length example_store"
    by (simp_all add: example_store_def)
  have c: "getChannel (example_store ! 1) ''chat'' \<noteq> None"
    by code_simp
  have d: "getChannel (example_store ! 1) ''chat'' \<noteq> getChannel (example_store ! 0) ''chat''"
    by code_simp
  from c obtain e where e: "getChannel (example_store ! 1) ''chat'' = Some e"
    by blast
  note m = merge_entries [OF l example_store_distinct]
  from m e have "getChannel (call (Merge 0 1) example_store ! 0) ''chat'' = Some e"
    by blast
  moreover from m have "call (Merge 0 1) example_store ! 1 = example_store ! 1"
    by blast
  ultimately show ?thesis
    using c d e by simp
qed

section \<open>The schema translator: results\<close>


lemma has_key_Cons: "has_key k ((k', v) # m) = (k = k' \<or> has_key k m)"
  by (auto simp: has_key_def)

lemma has_key_obj_set: "has_key k (obj_set k' v m) = (k = k' \<or> has_key k m)"
  by (simp add: has_key_def map_of_obj_set)

lemma has_key_obj_spread: "has_key k m \<Longrightarrow> has_key k (obj_spread m extra)"
  unfolding obj_spread_def
  by (induction extra arbitrary: m) (auto simp: has_key_obj_set)

lemma generateSchemaFromZod_discriminator:
  "has_key ''type'' (generateSchemaFromZod s) \<or> has_key ''oneOf'' (generateSchemaFromZod s)"
proof (induction s)
  case (ZodObject d shape)
  show ?case
    by (auto simp: Let_def has_key_Cons split: prod.splits intro!: has_key_obj_spread)
next
  case (ZodNullable d t)
  then show ?case by (auto intro: has_key_obj_spread)
next
  case (ZodDefault d t v)
  then show ?case by (auto intro: has_key_obj_spread)
qed (auto intro!: has_key_obj_spread simp: has_key_Cons)

text \<open>
  C5 (as amended). The translator is a total function with no error result. For every
  schema node whose own \<open>openapi\<close> entry is absent or falsy, the translation is the
  object built by \<open>generateSchemaFromZod\<close>, it has a \<open>type\<close> key or a \<open>oneOf\<close> key, and
  for a node of unknown kind it is exactly \<open>{type: "object"}\<close>. For a node whose own
  \<open>openapi\<close> entry is truthy the translation is that entry, whatever the node's kind.
\<close>

theorem translate_total_with_discriminator:
  "(\<not> js_truthy (zd_openapi (def_of s)) \<longrightarrow>
      zodToAsyncAPISchema s = JObj (generateSchemaFromZod s)
      \<and> (has_key ''type'' (generateSchemaFromZod s) \<or> has_key ''oneOf'' (generateSchemaFromZod s))
      \<and> (\<forall>d n. s = ZodOther d n \<longrightarrow> zodToAsyncAPISchema s = JObj [(''type'', JStr ''object'')]))
   \<and> (js_truthy (zd_openapi (def_of s)) \<longrightarrow> zodToAsyncAPISchema s = zd_openapi (def_of s))"
  using generateSchemaFromZod_discriminator [of s]
  by (auto simp: zodToAsyncAPISchema_def Let_def)

theorem translate_total_with_discriminator_witness:
  "zodToAsyncAPISchema (ZodOther empty_def ''ZodTuple'') = JObj [(''type'', JStr ''object'')]
   \<and> zodToAsyncAPISchema (ZodString with_openapi) = JObj [(''description'', JStr ''x'')]"
  using translate_total_with_discriminator [of "ZodOther empty_def ''ZodTuple''"]
    translate_total_with_discriminator [of "ZodString with_openapi"]
  by (simp add: empty_def_def with_openapi_def)

text \<open>
  C5 as stated fails: a node of unknown kind that carries an \<open>openapi\<close> entry is not
  translated to \<open>{type: "object"}\<close>, and a string node that carries one is translated to
  an object with neither a \<open>type\<close> nor a \<open>oneOf\<close> key.
\<close>

theorem translate_openapi_counterexample:
  "zodToAsyncAPISchema (ZodOther with_openapi ''ZodNull'') \<noteq> JObj [(''type'', JStr ''object'')]
   \<and> zodToAsyncAPISchema (ZodString with_openapi) = JObj [(''description'', JStr ''x'')]
   \<and> \<not> has_key ''type'' [(''description'', JStr ''x'')]
   \<and> \<not> has_key ''oneOf'' [(''description'', JStr ''x'')]"
  by (simp add: zodToAsyncAPISchema_def with_openapi_def has_key_def)








lemma example_object_value:
  "generateSchemaFromZod example_object =
    [(''type'', JStr ''object''),
     (''properties'', JObj [(''message'', JObj [(''type'', JStr ''string'')]),
                            (''nick'', JObj [(''type'', JStr ''string'')]),
                            (''count'', JObj [(''type'', JStr ''number''),
                                              (''description'', JStr ''a number'')])]),
     (''required'', JArr [JStr ''message'', JStr ''count''])]"
  by code_simp


section \<open>The document generator: results\<close>

lemma schema_writes_append:
  "schema_writes c (xs @ ys) = schema_writes c xs @ schema_writes (c + length xs) ys"
  by (induction xs arbitrary: c) auto

lemma message_writes_append:
  "message_writes c (xs @ ys) = message_writes c xs @ message_writes (c + length xs) ys"
  by (induction xs arbitrary: c) auto

lemma apply_writes_Nil: "apply_writes c [] components = components"
  by (simp add: apply_writes_def job_messages_def)

lemma apply_writes_append:
  "apply_writes c (xs @ ys) components
     = apply_writes (c + length xs) ys (apply_writes c xs components)"
  by (simp add: apply_writes_def job_messages_def schema_writes_append message_writes_append)

lemma createMessageObject_message:
  "fst (createMessageObject messageConfig components c)
     = fst (createMessageObject messageConfig empty_components c)"
  by (simp add: createMessageObject_def Let_def split: option.splits)

lemma createMessageObject_components:
  "snd (createMessageObject messageConfig components c)
     = components\<lparr>schemas := fold (\<lambda>(k, v) acc. obj_set k v acc)
                       (schema_writes c [messageConfig]) (schemas components)\<rparr>"
  by (simp add: createMessageObject_def Let_def split: option.splits)

lemma add_operation_components:
  "g_components (fst (add_operation action channelId messageConfig op (g, cm)))
     = apply_writes (schemaCounter g) [(channelId, action, messageConfig, op)] (g_components g)"
  using createMessageObject_components [of messageConfig "g_components g" "schemaCounter g"]
    createMessageObject_message [of messageConfig "g_components g" "schemaCounter g"]
  by (auto simp: add_operation_def apply_writes_def job_messages_def Let_def split: prod.splits)

lemma add_operation_counter:
  "schemaCounter (fst (add_operation action channelId messageConfig op (g, cm))) = schemaCounter g + 1"
  by (simp add: add_operation_def Let_def split: prod.splits)

lemma add_operation_eq:
  "add_operation action channelId messageConfig op (g, cm) = (g', cm') \<Longrightarrow>
   g_components g'
     = apply_writes (schemaCounter g) [(channelId, action, messageConfig, op)] (g_components g)
   \<and> schemaCounter g' = schemaCounter g + 1"
  using add_operation_components [of action channelId messageConfig op g cm]
    add_operation_counter [of action channelId messageConfig op g cm]
  by simp

lemma channel_jobs_cases:
  "channel_jobs (channelId, registered) =
     (case (cc_send (rc_config registered), ops_send (rc_operations registered)) of
            (Some messageConfig, Some op) \<Rightarrow> [(channelId, Send, messageConfig, op)]
          | _ \<Rightarrow> [])
         @ (case (cc_receive (rc_config registered), ops_receive (rc_operations registered)) of
              (Some messageConfig, Some op) \<Rightarrow> [(channelId, Receive, messageConfig, op)]
            | _ \<Rightarrow> [])"
  by (simp add: channel_jobs_def Let_def)

lemma process_channel_components:
  "g_components (process_channel entry g)
     = apply_writes (schemaCounter g) (channel_jobs entry) (g_components g)
   \<and> schemaCounter (process_channel entry g) = schemaCounter g + length (channel_jobs entry)"
proof -
  obtain channelId registered where e: "entry = (channelId, registered)" by (cases entry)
  show ?thesis
    unfolding e channel_jobs_cases process_channel_def
    by (auto simp: Let_def apply_writes_Nil
          apply_writes_append [of _ "[x]" "[y]" for x y, simplified]
          split: option.splits prod.splits dest!: add_operation_eq)
qed

lemma fold_process_channel_components:
  "g_components (fold process_channel xs g)
     = apply_writes (schemaCounter g) (concat (map channel_jobs xs)) (g_components g)
   \<and> schemaCounter (fold process_channel xs g)
     = schemaCounter g + length (concat (map channel_jobs xs))"
proof (induction xs arbitrary: g)
  case Nil
  show ?case by (simp add: apply_writes_Nil)
next
  case (Cons x xs)
  show ?case
    using Cons.IH [of "process_channel x g"] process_channel_components [of x g]
    by (simp add: apply_writes_append add.assoc)
qed

lemma digit_char_inj: "a < 10 \<Longrightarrow> b < 10 \<Longrightarrow> digit_char a = digit_char b \<Longrightarrow> a = b"
proof -
  assume a: "a < 10" and b: "b < 10" and e: "digit_char a = digit_char b"
  have "distinct ''0123456789''" by simp
  then show ?thesis
    using a b e unfolding digit_char_def by (simp add: nth_eq_iff_index_eq)
qed

lemma show_nat_not_Nil: "show_nat n \<noteq> []"
  by (subst show_nat.simps) simp

lemma show_nat_inj: "show_nat m = show_nat n \<Longrightarrow> m = n"
proof (induction m arbitrary: n rule: show_nat.induct)
  case (1 m)
  show ?case
  proof (cases "m < 10")
    case m: True
    show ?thesis
    proof (cases "n < 10")
      case True
      with m "1.prems" show ?thesis
        by (simp add: show_nat.simps [of m] show_nat.simps [of n] digit_char_inj)
    next
      case False
      with m "1.prems" show ?thesis
        using show_nat_not_Nil [of "n div 10"]
        by (simp add: show_nat.simps [of m] show_nat.simps [of n])
    qed
  next
    case m: False
    show ?thesis
    proof (cases "n < 10")
      case True
      with m "1.prems" show ?thesis
        using show_nat_not_Nil [of "m div 10"]
        by (simp add: show_nat.simps [of m] show_nat.simps [of n])
    next
      case False
      with m "1.prems" have e: "show_nat (m div 10) = show_nat (n div 10)"
        and d: "digit_char (m mod 10) = digit_char (n mod 10)"
        by (simp_all add: show_nat.simps [of m] show_nat.simps [of n])
      from "1.IH" [OF m e] have "m div 10 = n div 10" .
      moreover from d have "m mod 10 = n mod 10"
        by (intro digit_char_inj) simp_all
      ultimately show ?thesis
        by (metis div_mult_mod_eq)
    qed
  qed
qed

lemma schema_writes_keys:
  "(key, v) \<in> set (schema_writes c ms) \<Longrightarrow>
   \<exists>j\<ge>c. key = ''schema_'' @ show_nat j \<or> key = ''headers_'' @ show_nat j"
proof (induction ms arbitrary: c)
  case Nil
  then show ?case by simp
next
  case (Cons m ms)
  from Cons.prems consider
      "key = ''schema_'' @ show_nat c" | "key = ''headers_'' @ show_nat c"
    | "(key, v) \<in> set (schema_writes (c + 1) ms)"
    by (auto split: option.splits)
  then show ?case
  proof cases
    case 3
    from Cons.IH [OF 3] obtain j where j: "j \<ge> c + 1"
      and k: "key = ''schema_'' @ show_nat j \<or> key = ''headers_'' @ show_nat j"
      by blast
    from j have "j \<ge> c" by simp
    with k show ?thesis by blast
  qed auto
qed

lemma schema_key_fresh:
  "''schema_'' @ show_nat c \<notin> fst ` set (schema_writes (c + 1) ms)"
proof
  assume "''schema_'' @ show_nat c \<in> fst ` set (schema_writes (c + 1) ms)"
  then obtain v where "(''schema_'' @ show_nat c, v) \<in> set (schema_writes (c + 1) ms)"
    by auto
  from schema_writes_keys [OF this] obtain j where "j \<ge> c + 1"
    and "show_nat c = show_nat j" by auto
  then show False using show_nat_inj [of c j] by simp
qed

lemma headers_key_fresh:
  "''headers_'' @ show_nat c \<notin> fst ` set (schema_writes (c + 1) ms)"
proof
  assume "''headers_'' @ show_nat c \<in> fst ` set (schema_writes (c + 1) ms)"
  then obtain v where "(''headers_'' @ show_nat c, v) \<in> set (schema_writes (c + 1) ms)"
    by auto
  from schema_writes_keys [OF this] obtain j where "j \<ge> c + 1"
    and "show_nat c = show_nat j" by auto
  then show False using show_nat_inj [of c j] by simp
qed

lemma map_of_rev_None: "k \<notin> fst ` set xs \<Longrightarrow> map_of (rev xs) k = None"
  by (simp add: map_of_eq_None_iff)

lemma schema_writes_payload:
  "k < length ms \<Longrightarrow> mc_payload (ms ! k) = Some payload \<Longrightarrow>
   map_of (rev (schema_writes c ms)) (''schema_'' @ show_nat (c + k))
     = Some (zodToAsyncAPISchema payload)"
proof (induction ms arbitrary: c k)
  case Nil
  then show ?case by simp
next
  case (Cons m ms)
  show ?case
  proof (cases k)
    case 0
    with Cons.prems have p: "mc_payload m = Some payload" by simp
    show ?thesis
      using map_of_rev_None [OF schema_key_fresh [of c ms]] p
      by (simp add: 0 map_add_def split: option.splits)
  next
    case (Suc k')
    with Cons.prems have "k' < length ms" "mc_payload (ms ! k') = Some payload" by simp_all
    from Cons.IH [OF this, of "c + 1"] show ?thesis
      by (simp add: Suc map_add_def)
  qed
qed

lemma schema_writes_headers:
  "k < length ms \<Longrightarrow> mc_headers (ms ! k) = Some headers \<Longrightarrow>
   map_of (rev (schema_writes c ms)) (''headers_'' @ show_nat (c + k))
     = Some (zodToAsyncAPISchema headers)"
proof (induction ms arbitrary: c k)
  case Nil
  then show ?case by simp
next
  case (Cons m ms)
  show ?case
  proof (cases k)
    case 0
    with Cons.prems have p: "mc_headers m = Some headers" by simp
    show ?thesis
      using map_of_rev_None [OF headers_key_fresh [of c ms]] p
      by (simp add: 0 map_add_def split: option.splits)
  next
    case (Suc k')
    with Cons.prems have "k' < length ms" "mc_headers (ms ! k') = Some headers" by simp_all
    from Cons.IH [OF this, of "c + 1"] show ?thesis
      by (simp add: Suc map_add_def)
  qed
qed

lemma document_schemas:
  "schemas (doc_components (document (generateAsyncAPIDocument registry options)))
     = fold (\<lambda>(k, v) acc. obj_set k v acc)
         (schema_writes 0 (processed_messages registry))
         (schemas (initial_components options))"
  using fold_process_channel_components
    [of "getAllChannels registry"
        "\<lparr>g_channels = [], g_operations = [], g_components = initial_components options,
          schemaCounter = 0, messageCounter = 0\<rparr>"]
  by (simp add: generateAsyncAPIDocument_def Let_def apply_writes_def processed_messages_def
        job_messages_def)

text \<open>
  C1 (as amended). For every registry and options, the payload schema of the k-th message
  processed (counting from 0) is stored in \<open>components.schemas\<close> under \<open>schema_<k>\<close> and
  its headers schema under \<open>headers_<k>\<close>: the counter is local to the call, starts at 0
  and is incremented once per message processed.
\<close>

theorem schemas_keyed_by_message_counter:
  assumes "k < length (processed_messages registry)"
  shows "(\<forall>payload. mc_payload (processed_messages registry ! k) = Some payload \<longrightarrow>
            map_of (schemas (doc_components (document (generateAsyncAPIDocument registry options))))
                   (''schema_'' @ show_nat k)
              = Some (zodToAsyncAPISchema payload))
       \<and> (\<forall>headers. mc_headers (processed_messages registry ! k) = Some headers \<longrightarrow>
            map_of (schemas (doc_components (document (generateAsyncAPIDocument registry options))))
                   (''headers_'' @ show_nat k)
              = Some (zodToAsyncAPISchema headers))"
  using schema_writes_payload [OF assms, of _ 0] schema_writes_headers [OF assms, of _ 0]
  by (simp add: document_schemas map_of_fold_obj_set)

text \<open>
  C1 as stated fails: for one channel whose send message has a payload and headers and
  whose receive message has a payload, the headers schema is under \<open>headers_0\<close> and
  \<open>schema_1\<close> holds the payload of the receive message; the keys are \<open>schema_0\<close>,
  \<open>headers_0\<close>, \<open>schema_1\<close>.
\<close>

theorem schemas_keyed_counterexample:
  "map_of (schemas (doc_components (document (generateAsyncAPIDocument example_registry example_options))))
      ''headers_0'' = Some (JObj [(''type'', JStr ''number'')])
   \<and> map_of (schemas (doc_components (document (generateAsyncAPIDocument example_registry example_options))))
      ''schema_1'' = Some (JObj [(''type'', JStr ''string'')])
   \<and> map fst (schemas (doc_components (document (generateAsyncAPIDocument example_registry example_options))))
      = [''schema_0'', ''headers_0'', ''schema_1'']"
  by code_simp

lemma example_processed:
  "processed_messages example_registry = [headers_message, text_message]"
  by code_simp

theorem schemas_keyed_by_message_counter_witness:
  "0 < length (processed_messages example_registry)
   \<and> map_of (schemas (doc_components (document (generateAsyncAPIDocument example_registry example_options))))
        ''schema_0'' = Some (JObj [(''type'', JStr ''string'')])
   \<and> map_of (schemas (doc_components (document (generateAsyncAPIDocument example_registry example_options))))
        ''headers_0'' = Some (JObj [(''type'', JStr ''number'')])"
proof -
  have l: "0 < length (processed_messages example_registry)"
    by (simp add: example_processed)
  have p: "mc_payload (processed_messages example_registry ! 0) = Some (ZodString empty_def)"
    and h: "mc_headers (processed_messages example_registry ! 0) = Some (ZodNumber empty_def)"
    by (simp_all add: example_processed headers_message_def)
  have t: "zodToAsyncAPISchema (ZodString empty_def) = JObj [(''type'', JStr ''string'')]"
      "zodToAsyncAPISchema (ZodNumber empty_def) = JObj [(''type'', JStr ''number'')]"
    by (simp_all add: zodToAsyncAPISchema_def empty_def_def obj_spread_def extractMetadata_def)
  from schemas_keyed_by_message_counter [OF l, of example_options] p h l show ?thesis
    by (simp add: t show_nat_0)
qed

subsection \<open>Generating twice\<close>














section \<open>The YAML emitter: results\<close>

lemma yaml_string_field_quoted:
  "convertToYAML (JObj [(key, JStr s)]) indent
     = spaces_of indent @ key @ '': '' @ double_quote @ s @ double_quote @ newline"
  by simp

lemma yaml_string_item_bare:
  "convertToYAML (JArr [JStr s]) indent = spaces_of indent @ ''- '' @ s @ newline"
  by simp

lemma yaml_undefined_field_omitted:
  "convertToYAML (JObj ((key, JUndefined) # entries)) indent = convertToYAML (JObj entries) indent"
  by simp

text \<open>
  C9. The emitter renders arrays as dashed items, nested objects as indented key blocks,
  and omits fields whose value is undefined, but it does not quote every string: a string
  that is the value of a field is quoted, a string that is an item of an array is not.
  On the schema of the chat payload the \<open>type\<close> values are quoted and the name in
  \<open>required\<close> is bare.
\<close>

theorem yaml_array_strings_unquoted:
  "convertToYAML (zodToAsyncAPISchema chat_payload) 0 =
     ''type: '' @ double_quote @ ''object'' @ double_quote @ newline
     @ ''properties:'' @ newline
     @ ''  message:'' @ newline
     @ ''    type: '' @ double_quote @ ''string'' @ double_quote @ newline
     @ ''required:'' @ newline
     @ ''  - message'' @ newline"
  by code_simp

end
